theory Spec2Isabelle
  imports Main "HOL-Library.Sublist"
begin

section \<open>The model converter of BMXNet (smd_hpi/model-converter/main.cpp)\<close>

text \<open>
  The converter has two stages. \<open>convert_params_file\<close> loads a list of named arrays,
  packs the arrays of the binary layers and saves the list again;
  \<open>convert_json_file\<close> marks the binary layers in the symbol file. Both are embedded
  here with the process made explicit: the file system and the standard output are a
  record that every function takes and returns, and a failed \<open>assert\<close>, a failed
  \<open>CHECK\<close> and an uncaught exception end the run with the value \<open>Aborted\<close>.
  \<open>assert\<close> is taken as active (a build without \<open>NDEBUG\<close>).

  This theory covers main.cpp. What it calls from mshadow, mxnet, dmlc and
  rapidjson is modelled by what those calls do to the values of this model; what it
  takes from xnor_cpu.h and libgen.h is a parameter.
\<close>

subsection \<open>Strings\<close>

text \<open>
  \<open>std::string::find\<close>: the position of the first occurrence of the pattern, or
  \<open>None\<close> for \<open>npos\<close>. A \<open>std::string\<close> knows its length, so every character
  counts.
\<close>

fun str_find :: "string \<Rightarrow> string \<Rightarrow> nat option" where
  "str_find [] pat = (if pat = [] then Some 0 else None)"
| "str_find (c # cs) pat =
     (if prefix pat (c # cs) then Some 0 else map_option Suc (str_find cs pat))"

text \<open>\<open>std::string::rfind\<close> of one character: the position of its last occurrence.\<close>

fun str_rfind :: "string \<Rightarrow> char \<Rightarrow> nat option" where
  "str_rfind [] ch = None"
| "str_rfind (c # cs) ch =
     (case str_rfind cs ch of
        Some p \<Rightarrow> Some (Suc p)
      | None \<Rightarrow> (if c = ch then Some 0 else None))"

text \<open>
  A \<open>const char*\<close> ends at its first NUL character: \<open>c_str\<close> is what \<open>strcmp\<close> and
  \<open>operator<<\<close> see of a buffer that holds the characters \<open>s\<close> and a terminator.
\<close>

definition c_str :: "string \<Rightarrow> string" where
  "c_str s = takeWhile (\<lambda>c. c \<noteq> CHR 0x00) s"

text \<open>
  \<open>strcmp\<close>: the characters are compared as unsigned bytes up to the first
  difference or the terminator; the end of the list is the terminator.
\<close>

fun strcmp :: "string \<Rightarrow> string \<Rightarrow> int" where
  "strcmp [] [] = 0"
| "strcmp [] (b # bs) = (if b = CHR 0x00 then 0 else - 1)"
| "strcmp (a # as) [] = (if a = CHR 0x00 then 0 else 1)"
| "strcmp (a # as) (b # bs) =
     (if a = b then (if a = CHR 0x00 then 0 else strcmp as bs)
      else if (of_char a :: nat) < of_char b then - 1 else 1)"

subsection \<open>Arrays and the packing routine\<close>

text \<open>
  The type flags of mshadow and the byte size of each (\<open>mshadow_sizeof\<close>), as in
  mshadow/base.h.
\<close>

datatype TypeFlag = kFloat32 | kFloat64 | kFloat16 | kUint8 | kInt32 | kInt8 | kInt64

fun mshadow_sizeof :: "TypeFlag \<Rightarrow> nat" where
  "mshadow_sizeof kFloat32 = 4"
| "mshadow_sizeof kFloat64 = 8"
| "mshadow_sizeof kFloat16 = 2"
| "mshadow_sizeof kUint8 = 1"
| "mshadow_sizeof kInt32 = 4"
| "mshadow_sizeof kInt8 = 1"
| "mshadow_sizeof kInt64 = 8"

text \<open>
  An \<open>NDArray\<close>: its shape, its type flag and its buffer. The buffer is a list of
  cells of an unspecified type \<open>'a\<close>: the program never looks into a cell, it hands
  the buffer to \<open>get_binary_row\<close>.
\<close>

record 'a NDArray =
  shape :: "nat list"
  dtype :: TypeFlag
  dptr :: "'a list"

text \<open>\<open>TShape::Size\<close>: the number of elements.\<close>

definition Size :: "nat list \<Rightarrow> nat" where
  "Size s = prod_list s"

text \<open>
  The header xnor_cpu.h is missing here. What main.cpp takes from
  it is a parameter of the model: the bit width and the byte size of \<open>BINARY_WORD\<close>
  and the routine \<open>get_binary_row\<close>, which reads the given number of values from the first
  buffer and returns the words it writes to the second.
\<close>

record 'a xnor_cpu =
  BITS_PER_BINARY_WORD :: nat
  sizeof_BINARY_WORD :: nat
  get_binary_row :: "'a list \<Rightarrow> nat \<Rightarrow> 'a list"

text \<open>
  How a run ends without returning: a failed \<open>assert\<close> of main.cpp (with its line), a
  failed \<open>CHECK\<close> of dmlc (with its message), a failed \<open>RAPIDJSON_ASSERT\<close> (with its
  condition), an exception that nothing catches.
\<close>

datatype abort =
    AssertionFailed nat
  | CheckFailed string
  | RapidjsonAssert string
  | UncaughtException string

text \<open>
  \<open>convert_to_binary\<close> (lines 28 to 39). The new array has one dimension and the
  type flag of the old one.
\<close>

definition convert_to_binary :: "'a xnor_cpu \<Rightarrow> 'a NDArray \<Rightarrow> abort + 'a NDArray" where
  "convert_to_binary X array =
     (if mshadow_sizeof (dtype array) \<noteq> sizeof_BINARY_WORD X then
        Inl (AssertionFailed 29)
      else if \<not> 2 \<le> length (shape array) then
        Inl (AssertionFailed 31)
      else if shape array ! 1 mod BITS_PER_BINARY_WORD X \<noteq> 0 then
        Inl (AssertionFailed 32)
      else
        (let binarized_shape = [Size (shape array) div BITS_PER_BINARY_WORD X];
             temp = \<lparr>shape = binarized_shape, dtype = dtype array,
                     dptr = get_binary_row X (dptr array) (Size (shape array))\<rparr>
         in Inr temp))"

subsection \<open>Documents\<close>

text \<open>
  A value of rapidjson. An object is its list of members in order; a name may occur
  more than once. A double is kept as mantissa and binary exponent.
\<close>

datatype json =
    JNull
  | JBool bool
  | JInt int
  | JDouble int int
  | JString string
  | JArray "json list"
  | JObject "(string \<times> json) list"

subsection \<open>The process: files and output\<close>

datatype 'a content =
    NDArrayList "(string \<times> 'a NDArray) list"
  | JsonText json
  | OtherBytes

text \<open>
  \<open>files\<close> gives the content of every path that can be opened for reading;
  \<open>unwritable\<close> holds the paths that cannot be opened for writing; \<open>stdout\<close> is the
  list of the lines printed so far.
\<close>

record 'a world =
  files :: "string \<Rightarrow> 'a content option"
  unwritable :: "string set"
  stdout :: "string list"

datatype ('r, 'a) outcome =
    Aborted abort "'a world"
  | Returned 'r "'a world"

text \<open>The state in which a run ends.\<close>

fun final_world :: "('r, 'a) outcome \<Rightarrow> 'a world" where
  "final_world (Aborted e w) = w"
| "final_world (Returned r w) = w"

definition print :: "'a world \<Rightarrow> string \<Rightarrow> 'a world" where
  "print w line = w\<lparr>stdout := stdout w @ [line]\<rparr>"

subsection \<open>The weight packer\<close>

text \<open>
  Modelled from the spec: \<open>NDArray::Load\<close> and \<open>NDArray::Save\<close> (mxnet/ndarray.h)
  and \<open>dmlc::Stream::Create\<close> are missing here. The spec has the
  container as an ordered list of pairs of a name and an array, read into the two
  vectors \<open>data\<close> and \<open>keys\<close> and written back from them in the same order; a file
  that cannot be opened or read is fatal.
\<close>

definition Load :: "'a world \<Rightarrow> string \<Rightarrow> abort + ('a NDArray list \<times> string list)" where
  "Load w uri =
     (case files w uri of
        Some (NDArrayList entries) \<Rightarrow> Inr (map snd entries, map fst entries)
      | Some _ \<Rightarrow> Inl (CheckFailed ''Invalid NDArray file format'')
      | None \<Rightarrow> Inl (CheckFailed ''fail to open''))"

definition Save :: "'a world \<Rightarrow> string \<Rightarrow> 'a NDArray list \<Rightarrow> string list \<Rightarrow> abort + 'a world" where
  "Save w uri data keys =
     (if uri \<in> unwritable w then Inl (CheckFailed ''fail to open'')
      else Inr (w\<lparr>files := (files w)(uri \<mapsto> NDArrayList (zip keys data))\<rparr>))"

definition filter_strings :: "string list" where
  "filter_strings = [''qconvolution'', ''qfullyconnected'']"

text \<open>The two lambdas of lines 62 to 67.\<close>

definition containsSubString :: "string \<Rightarrow> string \<Rightarrow> bool" where
  "containsSubString line_in_params filter_string \<longleftrightarrow>
     str_find line_in_params filter_string \<noteq> None"

definition containsFilterString :: "string \<Rightarrow> bool" where
  "containsFilterString line_in_params \<longleftrightarrow>
     find (containsSubString line_in_params) filter_strings \<noteq> None"

text \<open>
  \<open>std::find_if\<close> on the vector \<open>keys\<close>, with iterators as positions: the first
  position from \<open>first\<close> on whose key satisfies the predicate, or the end.
\<close>

function find_if :: "nat \<Rightarrow> string list \<Rightarrow> (string \<Rightarrow> bool) \<Rightarrow> nat" where
  "find_if first keys p =
     (if first < length keys then
        (if p (keys ! first) then first else find_if (Suc first) keys p)
      else length keys)"
  by pat_completeness auto
termination
  by (relation "measure (\<lambda>(first, keys, p). length keys - first)") auto

declare find_if.simps [simp del]

text \<open>
  The loop of lines 75 to 85, started at the position \<open>iter\<close>. \<open>data[iter]\<close> is
  within the vector whenever there are as many arrays as keys, which \<open>Load\<close> gives;
  the last branch is never taken then.
\<close>

function convert_loop ::
  "'a xnor_cpu \<Rightarrow> string list \<Rightarrow> nat \<Rightarrow> 'a NDArray list \<Rightarrow> 'a world \<Rightarrow> ('a NDArray list, 'a) outcome"
where
  "convert_loop X keys iter data w =
     (if iter < length keys then
        (let w1 = print w (''|- converting weights '' @ keys ! iter @ ''...'') in
         if str_find (keys ! iter) ''weight'' = None then
           Aborted (CheckFailed ''onyl weight binarization supported currently'') w1
         else if iter < length data then
           (case convert_to_binary X (data ! iter) of
              Inl e \<Rightarrow> Aborted e w1
            | Inr array \<Rightarrow>
                convert_loop X keys (find_if (Suc iter) keys containsFilterString)
                  (data[iter := array]) w1)
         else Aborted (UncaughtException ''data index out of range'') w1)
      else Returned data w)"
  by pat_completeness auto
termination
proof (relation "measure (\<lambda>(X, keys, iter, data, w). length keys - iter)")
  show "wf (measure (\<lambda>(X, keys, iter, data, w). length keys - iter))" by simp
next
  fix X :: "'a xnor_cpu" and keys :: "string list" and iter :: nat
    and data :: "'a NDArray list" and w w1 :: "'a world" and array :: "'a NDArray"
  assume less: "iter < length keys"
  have ge: "first \<le> length keys \<Longrightarrow> first \<le> find_if first keys p" for first p
  proof (induction first keys p rule: find_if.induct)
    case (1 first keys p)
    show ?case
    proof (cases "first < length keys \<and> \<not> p (keys ! first)")
      case True
      with "1.IH" have "Suc first \<le> find_if (Suc first) keys p" by simp
      with True show ?thesis by (subst find_if.simps) simp
    next
      case False
      with "1.prems" show ?thesis by (subst find_if.simps) auto
    qed
  qed
  from less have "Suc iter \<le> find_if (Suc iter) keys containsFilterString"
    by (simp add: ge)
  with less
  show "((X, keys, find_if (Suc iter) keys containsFilterString, data[iter := array], w1),
         (X, keys, iter, data, w)) \<in> measure (\<lambda>(X, keys, iter, data, w). length keys - iter)"
    by simp
qed

declare convert_loop.simps [simp del]

text \<open>\<open>convert_params_file\<close> (lines 48 to 94).\<close>

definition convert_params_file ::
  "'a xnor_cpu \<Rightarrow> string \<Rightarrow> string \<Rightarrow> 'a world \<Rightarrow> (int, 'a) outcome"
where
  "convert_params_file X input_file output_file w =
     (let w1 = print w (''loading '' @ input_file @ ''...'') in
      case Load w1 input_file of
        Inl e \<Rightarrow> Aborted e w1
      | Inr (data, keys) \<Rightarrow>
          (case convert_loop X keys (find_if 0 keys containsFilterString) data w1 of
             Aborted e w2 \<Rightarrow> Aborted e w2
           | Returned data' w2 \<Rightarrow>
               (case Save w2 output_file data' keys of
                  Inl e \<Rightarrow> Aborted e w2
                | Inr w3 \<Rightarrow>
                    Returned 0 (print w3 (''wrote converted params to '' @ output_file)))))"

subsection \<open>The graph annotator\<close>

text \<open>
  The operations of rapidjson that main.cpp calls. \<open>RAPIDJSON_ASSERT\<close> is
  \<open>assert\<close>: asking a value that is no object for a member, asking an object for a
  member it has not, and \<open>GetString\<close> on a value that is no string all end the run.
  A member is found by its name, the first one with that name.
\<close>

definition IsString :: "json \<Rightarrow> bool" where
  "IsString v = (case v of JString s \<Rightarrow> True | _ \<Rightarrow> False)"

definition GetString :: "json \<Rightarrow> abort + string" where
  "GetString v = (case v of JString s \<Rightarrow> Inr s | _ \<Rightarrow> Inl (RapidjsonAssert ''IsString()''))"

definition HasMember :: "json \<Rightarrow> string \<Rightarrow> abort + bool" where
  "HasMember v name =
     (case v of
        JObject ms \<Rightarrow> Inr (map_of ms name \<noteq> None)
      | _ \<Rightarrow> Inl (RapidjsonAssert ''IsObject()''))"

definition Member :: "json \<Rightarrow> string \<Rightarrow> abort + json" where
  "Member v name =
     (case v of
        JObject ms \<Rightarrow>
          (case map_of ms name of
             Some x \<Rightarrow> Inr x
           | None \<Rightarrow> Inl (RapidjsonAssert ''false''))
      | _ \<Rightarrow> Inl (RapidjsonAssert ''IsObject()''))"

text \<open>\<open>AddMember\<close> appends the member; it does not look for the name.\<close>

definition AddMember :: "json \<Rightarrow> string \<Rightarrow> json \<Rightarrow> abort + json" where
  "AddMember v name x =
     (case v of
        JObject ms \<Rightarrow> Inr (JObject (ms @ [(name, x)]))
      | _ \<Rightarrow> Inl (RapidjsonAssert ''IsObject()''))"

text \<open>
  \<open>operator[]\<close> returns a reference: what is written through it replaces the value
  of the first member with that name.
\<close>

fun store_member :: "string \<Rightarrow> json \<Rightarrow> (string \<times> json) list \<Rightarrow> (string \<times> json) list" where
  "store_member name v [] = []"
| "store_member name v ((n, x) # ms) =
     (if n = name then (n, v) # ms else (n, x) # store_member name v ms)"

definition assign_member :: "json \<Rightarrow> string \<Rightarrow> json \<Rightarrow> json" where
  "assign_member v name x =
     (case v of JObject ms \<Rightarrow> JObject (store_member name x ms) | _ \<Rightarrow> v)"

text \<open>
  Modelled from the spec: parsing and writing (rapidjson) are missing here.
  A file of the graph format is kept as the document it parses to and is
  written as the document; any other content does not parse, and the document stays
  the null value it is created as.
\<close>

definition Parse :: "'a content \<Rightarrow> json" where
  "Parse c = (case c of JsonText d \<Rightarrow> d | _ \<Rightarrow> JNull)"

text \<open>The condition of lines 125 to 127, before its negation; \<open>&&\<close> is short-circuit.\<close>

definition is_binary_op :: "json \<Rightarrow> abort + bool" where
  "is_binary_op itr =
     (case HasMember itr ''op'' of
        Inl e \<Rightarrow> Inl e
      | Inr False \<Rightarrow> Inr False
      | Inr True \<Rightarrow>
          (case Member itr ''op'' of
             Inl e \<Rightarrow> Inl e
           | Inr opv \<Rightarrow>
               if \<not> IsString opv then Inr False
               else
                 (case GetString opv of
                    Inl e \<Rightarrow> Inl e
                  | Inr s \<Rightarrow>
                      Inr (strcmp s ''QConvolution'' = 0 \<or> strcmp s ''QFullyConnected'' = 0))))"

text \<open>The body of the loop (lines 125 to 136) on the node \<open>itr\<close>.\<close>

definition adjust_node :: "json \<Rightarrow> 'a world \<Rightarrow> (json, 'a) outcome" where
  "adjust_node itr w =
     (case is_binary_op itr of
        Inl e \<Rightarrow> Aborted e w
      | Inr False \<Rightarrow> Returned itr w
      | Inr True \<Rightarrow>
          (case HasMember itr ''attr'' of
             Inl e \<Rightarrow> Aborted e w
           | Inr False \<Rightarrow> Aborted (AssertionFailed 131) w
           | Inr True \<Rightarrow>
               (case Member itr ''attr'' of
                  Inl e \<Rightarrow> Aborted e w
                | Inr op_attributes \<Rightarrow>
                    (case AddMember op_attributes ''binarized_weights_only'' (JString ''True'') of
                       Inl e \<Rightarrow> Aborted e w
                     | Inr attrs \<Rightarrow>
                         (let itr' = assign_member itr ''attr'' attrs in
                          case HasMember itr' ''name'' of
                            Inl e \<Rightarrow> Aborted e w
                          | Inr False \<Rightarrow> Aborted (AssertionFailed 135) w
                          | Inr True \<Rightarrow>
                              (case Member itr' ''name'' of
                                 Inl e \<Rightarrow> Aborted e w
                               | Inr nm \<Rightarrow>
                                   (case GetString nm of
                                      Inl e \<Rightarrow> Aborted e w
                                    | Inr s \<Rightarrow>
                                        Returned itr'
                                          (print w (''|- adjusting attributes for '' @ c_str s)))))))))"

text \<open>The loop over the array \<open>nodes\<close>, from \<open>Begin\<close> to \<open>End\<close>.\<close>

fun adjust_nodes :: "json list \<Rightarrow> 'a world \<Rightarrow> (json list, 'a) outcome" where
  "adjust_nodes [] w = Returned [] w"
| "adjust_nodes (itr # rest) w =
     (case adjust_node itr w of
        Aborted e w1 \<Rightarrow> Aborted e w1
      | Returned itr' w1 \<Rightarrow>
          (case adjust_nodes rest w1 of
             Aborted e w2 \<Rightarrow> Aborted e w2
           | Returned rest' w2 \<Rightarrow> Returned (itr' # rest') w2))"

text \<open>Lines 117 to 137: the document after the loop.\<close>

definition adjust_document :: "json \<Rightarrow> 'a world \<Rightarrow> (json, 'a) outcome" where
  "adjust_document d w =
     (case HasMember d ''nodes'' of
        Inl e \<Rightarrow> Aborted e w
      | Inr False \<Rightarrow> Aborted (AssertionFailed 120) w
      | Inr True \<Rightarrow>
          (case Member d ''nodes'' of
             Inl e \<Rightarrow> Aborted e w
           | Inr nodes \<Rightarrow>
               (case nodes of
                  JArray ns \<Rightarrow>
                    (case adjust_nodes ns w of
                       Aborted e w1 \<Rightarrow> Aborted e w1
                     | Returned ns' w1 \<Rightarrow>
                         Returned (assign_member d ''nodes'' (JArray ns')) w1)
                | _ \<Rightarrow> Aborted (AssertionFailed 122) w)))"

text \<open>\<open>convert_json_file\<close> (lines 103 to 157).\<close>

definition convert_json_file :: "string \<Rightarrow> string \<Rightarrow> 'a world \<Rightarrow> (int, 'a) outcome" where
  "convert_json_file input_fname output_fname w =
     (let w1 = print w (''loading '' @ input_fname @ ''...'') in
      case files w1 input_fname of
        None \<Rightarrow> Returned (- 1) (print w1 (''cant find json file at '' @ input_fname))
      | Some json \<Rightarrow>
          (case adjust_document (Parse json) w1 of
             Aborted e w2 \<Rightarrow> Aborted e w2
           | Returned d w2 \<Rightarrow>
               if output_fname \<in> unwritable w2 then
                 Returned (- 1) (print w2 (''cant find json file at '' @ output_fname))
               else
                 Returned 0
                   (print (w2\<lparr>files := (files w2)(output_fname \<mapsto> JsonText d)\<rparr>)
                      (''wrote converted json to '' @ output_fname))))"

subsection \<open>The driver\<close>

text \<open>
  \<open>dirname\<close> and \<open>basename\<close> of libgen.h are parameters. \<open>dirname\<close> may write into
  its argument, so it returns its result and the argument as it is afterwards;
  \<open>basename\<close> is called on that.
\<close>

record libgen =
  dirname :: "string \<Rightarrow> string \<times> string"
  basename :: "string \<Rightarrow> string"

definition usage :: "string \<Rightarrow> string list" where
  "usage argv0 =
     [''usage: '' @ argv0 @ '' <mxnet *.params file>'',
      ''  will binarize the weights of the Convolutional Layers of your model,'',
      ''  pack 32 values into one and save the result with the prefix ''
        @ [CHR 0x27] @ ''binarized_'' @ [CHR 0x27]]"

text \<open>The derived paths of lines 171 to 184.\<close>

definition output_name :: "string \<Rightarrow> string \<Rightarrow> string" where
  "output_name path params_file_name = path @ ''/'' @ ''binarized_'' @ params_file_name"

definition json_file_name :: "string \<Rightarrow> string \<Rightarrow> string" where
  "json_file_name path base_name = path @ ''/'' @ base_name @ ''-symbol.json''"

definition json_out_fname :: "string \<Rightarrow> string \<Rightarrow> string" where
  "json_out_fname path base_name = path @ ''/'' @ ''binarized_'' @ base_name @ ''-symbol.json''"

text \<open>
  \<open>main\<close> (lines 163 to 191), with \<open>argv[0]\<close> and the arguments after it.
  \<open>erase\<close> at \<open>npos\<close> throws \<open>std::out_of_range\<close>, which nothing catches. In
  \<open>int ret = f(...) != 0\<close> the comparison is evaluated first, so \<open>ret\<close> is 1 when
  the stage returns a value other than 0.
\<close>

definition main :: "libgen \<Rightarrow> 'a xnor_cpu \<Rightarrow> string \<Rightarrow> string list \<Rightarrow> 'a world \<Rightarrow> (int, 'a) outcome" where
  "main L X argv0 args w =
     (if 1 + length args \<noteq> 2 then
        Returned (- 1) (w\<lparr>stdout := stdout w @ usage argv0\<rparr>)
      else
        (let params_file = hd args;
             (path, argv1) = dirname L (hd args);
             params_file_name = basename L argv1
         in case str_rfind params_file_name CHR ''-'' of
              None \<Rightarrow> Aborted (UncaughtException ''std::out_of_range'') w
            | Some pos \<Rightarrow>
                (let base_name = take pos params_file_name in
                 case convert_params_file X params_file (output_name path params_file_name) w of
                   Aborted e w1 \<Rightarrow> Aborted e w1
                 | Returned r1 w1 \<Rightarrow>
                     (let ret = (if r1 \<noteq> 0 then 1 else 0) in
                      if ret \<noteq> 0 then Returned ret w1
                      else
                        (case convert_json_file (json_file_name path base_name)
                                (json_out_fname path base_name) w1 of
                           Aborted e w2 \<Rightarrow> Aborted e w2
                         | Returned r2 w2 \<Rightarrow>
                             (let ret = (if r2 \<noteq> 0 then 1 else 0) in
                              if ret \<noteq> 0 then Returned ret w2 else Returned 0 w2))))))"

text \<open>The exit status the parent sees: the low eight bits of what \<open>main\<close> returns.\<close>

definition exit_status :: "int \<Rightarrow> int" where
  "exit_status r = r mod 256"

subsection \<open>What the annotation law speaks of\<close>

text \<open>
  A node reads as a binary layer if it is an object whose member \<open>op\<close> is a string
  that, read as a C string (up to its first NUL), is \<open>QConvolution\<close> or
  \<open>QFullyConnected\<close>.
\<close>

definition reads_as_binary_op :: "json \<Rightarrow> bool" where
  "reads_as_binary_op n =
     (case n of
        JObject ms \<Rightarrow>
          (case map_of ms ''op'' of
             Some (JString s) \<Rightarrow> c_str s = ''QConvolution'' \<or> c_str s = ''QFullyConnected''
           | _ \<Rightarrow> False)
      | _ \<Rightarrow> False)"

text \<open>
  \<open>flagged k n\<close> is the node \<open>n\<close> with the member \<open>binarized_weights_only\<close> of
  value \<open>True\<close> appended \<open>k\<close> times to the object of its member \<open>attr\<close>, and
  nothing else changed; it is \<open>None\<close> if \<open>n\<close> has no such object.
\<close>

definition flagged :: "nat \<Rightarrow> json \<Rightarrow> json option" where
  "flagged k n =
     (case n of
        JObject ms \<Rightarrow>
          (case map_of ms ''attr'' of
             Some (JObject attrs) \<Rightarrow>
               Some (JObject (store_member ''attr''
                 (JObject (attrs @ replicate k (''binarized_weights_only'', JString ''True''))) ms))
           | _ \<Rightarrow> None)
      | _ \<Rightarrow> None)"

text \<open>
  What one pass of the loop body makes of a node on which it does not abort: a node
  that reads as a binary layer has an object \<open>attr\<close> and a string \<open>name\<close> and gets
  the flag once; any other object stays as it is.
\<close>

definition adjusted_to :: "json \<Rightarrow> json \<Rightarrow> bool" where
  "adjusted_to n n' =
     (case n of
        JObject ms \<Rightarrow>
          (if reads_as_binary_op n then
             flagged 1 n = Some n' \<and>
             (case map_of ms ''name'' of Some (JString s) \<Rightarrow> True | _ \<Rightarrow> False)
           else n' = n)
      | _ \<Rightarrow> False)"

subsection \<open>A 32-bit build\<close>

text \<open>
  Modelled from the spec: \<open>get_binary_row\<close> and the constants of xnor_cpu.h for
  a build with 32-bit words. Each packed word holds one bit for each of 32 values, the
  bit being 1 if the value is at least 0 and 0 otherwise; the first value is the
  lowest bit. A cell holds a number: the value of a weight or of a packed word.
\<close>

fun pack_word :: "int list \<Rightarrow> int" where
  "pack_word [] = 0"
| "pack_word (x # xs) = (if 0 \<le> x then 1 else 0) + 2 * pack_word xs"

definition get_binary_row32 :: "int list \<Rightarrow> nat \<Rightarrow> int list" where
  "get_binary_row32 row n =
     map (\<lambda>i. pack_word (take 32 (drop (32 * i) row))) [0..<n div 32]"

definition xnor32 :: "int xnor_cpu" where
  "xnor32 = \<lparr>BITS_PER_BINARY_WORD = 32, sizeof_BINARY_WORD = 4,
              get_binary_row = get_binary_row32\<rparr>"

text \<open>
  \<open>dirname\<close> and \<open>basename\<close> on a file name without a slash: the directory is
  \<open>.\<close>, the argument stays as it is and is its own base name.
\<close>

definition libgen_cwd :: libgen where
  "libgen_cwd = \<lparr>dirname = (\<lambda>s. (''.'', s)), basename = (\<lambda>s. s)\<rparr>"

subsection \<open>Sample inputs\<close>

text \<open>
  A checkpoint with one weight array of a binary layer (one row of 32 values, all 1)
  and one array of another layer, its packed form, and a graph with one binary
  convolution.
\<close>

definition weights0 :: "int NDArray" where
  "weights0 = \<lparr>shape = [1, 32], dtype = kFloat32, dptr = replicate 32 1\<rparr>"

definition bias0 :: "int NDArray" where
  "bias0 = \<lparr>shape = [2], dtype = kFloat32, dptr = [1, - 1]\<rparr>"

definition packed0 :: "int NDArray" where
  "packed0 = \<lparr>shape = [1], dtype = kFloat32, dptr = [4294967295]\<rparr>"

definition checkpoint0 :: "(string \<times> int NDArray) list" where
  "checkpoint0 = [(''qconvolution0_weight'', weights0), (''fc1_bias'', bias0)]"

definition graph0 :: json where
  "graph0 = JObject [(''nodes'', JArray
     [JObject [(''op'', JString ''QConvolution''), (''name'', JString ''c0''),
               (''attr'', JObject [])]])]"

definition world0 :: "int world" where
  "world0 = \<lparr>files = [''m-0.params'' \<mapsto> NDArrayList checkpoint0,
                       ''./m-symbol.json'' \<mapsto> JsonText graph0],
             unwritable = {}, stdout = []\<rparr>"

text \<open>The state after the packer has run on \<open>world0\<close>.\<close>

definition world1 :: "int world" where
  "world1 = \<lparr>files = [''m-0.params'' \<mapsto> NDArrayList checkpoint0,
                       ''./m-symbol.json'' \<mapsto> JsonText graph0,
                       ''./binarized_m-0.params'' \<mapsto>
                         NDArrayList [(''qconvolution0_weight'', packed0), (''fc1_bias'', bias0)]],
             unwritable = {},
             stdout = [''loading m-0.params...'',
                       ''|- converting weights qconvolution0_weight...'',
                       ''wrote converted params to ./binarized_m-0.params'']\<rparr>"

text \<open>
  Two checkpoints that the packer refuses: a weight array whose second dimension is
  no multiple of 32, and an array of a binary layer that is no weight array.
\<close>

definition weightsB :: "int NDArray" where
  "weightsB = \<lparr>shape = [1, 33], dtype = kFloat32, dptr = replicate 33 1\<rparr>"

definition worldB :: "int world" where
  "worldB = \<lparr>files = [''m-0.params'' \<mapsto> NDArrayList [(''qconvolution0_weight'', weightsB)]],
             unwritable = {}, stdout = []\<rparr>"

definition worldC :: "int world" where
  "worldC = \<lparr>files = [''m-0.params'' \<mapsto> NDArrayList [(''qfullyconnected0_bias'', bias0)]],
             unwritable = {}, stdout = []\<rparr>"

text \<open>
  The graph \<open>graph0\<close> after one run of the annotator and after two, and the state
  after the annotator has run on \<open>world0\<close>.
\<close>

definition graph1 :: json where
  "graph1 = JObject [(''nodes'', JArray
     [JObject [(''op'', JString ''QConvolution''), (''name'', JString ''c0''),
               (''attr'', JObject [(''binarized_weights_only'', JString ''True'')])]])]"


definition world0_annotated :: "int world" where
  "world0_annotated = world0
     \<lparr>files := (files world0)(''./binarized_m-symbol.json'' \<mapsto> JsonText graph1),
      stdout := [''loading ./m-symbol.json...'', ''|- adjusting attributes for c0'',
                 ''wrote converted json to ./binarized_m-symbol.json'']\<rparr>"

text \<open>
  A graph whose only node has an operator string that goes on after a NUL character
  (written \<open>\u0000\<close> in the file), and the graph after the annotator has run.
\<close>

definition op_with_nul :: string where
  "op_with_nul = ''QConvolution'' @ [CHR 0x00] @ ''x''"

definition graphN :: json where
  "graphN = JObject [(''nodes'', JArray
     [JObject [(''op'', JString op_with_nul), (''name'', JString ''c0''),
               (''attr'', JObject [])]])]"

definition graphN_annotated :: json where
  "graphN_annotated = JObject [(''nodes'', JArray
     [JObject [(''op'', JString op_with_nul), (''name'', JString ''c0''),
               (''attr'', JObject [(''binarized_weights_only'', JString ''True'')])]])]"

definition worldN :: "int world" where
  "worldN = \<lparr>files = [''g.json'' \<mapsto> JsonText graphN], unwritable = {}, stdout = []\<rparr>"

text \<open>
  A graph whose only node has a number as operator, with the state after the
  annotator has run on it; and a graph whose binary convolution has no \<open>attr\<close>.
\<close>

definition graphD :: json where
  "graphD = JObject [(''nodes'', JArray
     [JObject [(''op'', JInt 5), (''name'', JString ''c0''), (''attr'', JObject [])]])]"

definition worldD :: "int world" where
  "worldD = \<lparr>files = [''g.json'' \<mapsto> JsonText graphD], unwritable = {}, stdout = []\<rparr>"

definition worldD_annotated :: "int world" where
  "worldD_annotated = worldD
     \<lparr>files := (files worldD)(''out.json'' \<mapsto> JsonText graphD),
      stdout := [''loading g.json...'', ''wrote converted json to out.json'']\<rparr>"

definition graphE :: json where
  "graphE = JObject [(''nodes'', JArray
     [JObject [(''op'', JString ''QConvolution''), (''name'', JString ''c0'')]])]"

definition worldE :: "int world" where
  "worldE = \<lparr>files = [''g.json'' \<mapsto> JsonText graphE], unwritable = {}, stdout = []\<rparr>"

text \<open>
  A directory with the checkpoint and without the graph file, the state after the
  packer has run there, and the state in which the driver then ends.
\<close>

definition worldP :: "int world" where
  "worldP = \<lparr>files = [''m-0.params'' \<mapsto> NDArrayList checkpoint0],
             unwritable = {}, stdout = []\<rparr>"

definition worldP_packed :: "int world" where
  "worldP_packed = worldP
     \<lparr>files := (files worldP)(''./binarized_m-0.params'' \<mapsto>
         NDArrayList [(''qconvolution0_weight'', packed0), (''fc1_bias'', bias0)]),
      stdout := [''loading m-0.params...'',
                 ''|- converting weights qconvolution0_weight...'',
                 ''wrote converted params to ./binarized_m-0.params'']\<rparr>"

definition worldP_end :: "int world" where
  "worldP_end = worldP_packed
     \<lparr>stdout := stdout worldP_packed @
        [''loading ./m-symbol.json...'', ''cant find json file at ./m-symbol.json'']\<rparr>"

section \<open>Properties of the weight packer\<close>

lemma str_find_sublist: "str_find s pat \<noteq> None \<longleftrightarrow> sublist pat s"
  by (induction s) (auto simp: sublist_Cons_right)

lemma str_find_Some: "(\<exists>p. str_find s pat = Some p) \<longleftrightarrow> sublist pat s"
  using str_find_sublist [of s pat] by auto

lemma containsFilterString_iff:
  "containsFilterString k \<longleftrightarrow> sublist ''qconvolution'' k \<or> sublist ''qfullyconnected'' k"
  unfolding containsFilterString_def filter_strings_def containsSubString_def
  using str_find_sublist [of k "''qconvolution''"] str_find_sublist [of k "''qfullyconnected''"]
  by (simp del: str_find.simps split: if_splits)

lemma find_if_le: "find_if first keys p \<le> length keys"
proof (induction first keys p rule: find_if.induct)
  case (1 first keys p)
  then show ?case by (subst find_if.simps) auto
qed

lemma find_if_ge: "first \<le> length keys \<Longrightarrow> first \<le> find_if first keys p"
proof (induction first keys p rule: find_if.induct)
  case (1 first keys p)
  show ?case
  proof (cases "first < length keys \<and> \<not> p (keys ! first)")
    case True
    with "1.IH" have "Suc first \<le> find_if (Suc first) keys p" by simp
    with True show ?thesis by (subst find_if.simps) simp
  next
    case False
    with "1.prems" show ?thesis by (subst find_if.simps) auto
  qed
qed

lemma find_if_sat: "find_if first keys p < length keys \<Longrightarrow> p (keys ! find_if first keys p)"
proof (induction first keys p rule: find_if.induct)
  case (1 first keys p)
  show ?case
  proof (cases "first < length keys")
    case True
    show ?thesis
    proof (cases "p (keys ! first)")
      case True
      with \<open>first < length keys\<close> show ?thesis by (subst find_if.simps) simp
    next
      case False
      with True have eq: "find_if first keys p = find_if (Suc first) keys p"
        by (subst find_if.simps) simp
      with "1.IH" [OF True False] "1.prems" show ?thesis by simp
    qed
  next
    case False
    then have "find_if first keys p = length keys" by (subst find_if.simps) simp
    with "1.prems" show ?thesis by simp
  qed
qed

lemma find_if_skip: "first \<le> j \<Longrightarrow> j < find_if first keys p \<Longrightarrow> \<not> p (keys ! j)"
proof (induction first keys p rule: find_if.induct)
  case (1 first keys p)
  show ?case
  proof (cases "first < length keys")
    case True
    show ?thesis
    proof (cases "p (keys ! first)")
      case True
      with \<open>first < length keys\<close> have "find_if first keys p = first" by (subst find_if.simps) simp
      with "1.prems" show ?thesis by simp
    next
      case False
      with True have eq: "find_if first keys p = find_if (Suc first) keys p"
        by (subst find_if.simps) simp
      show ?thesis
      proof (cases "j = first")
        case True with False show ?thesis by simp
      next
        case False
        with "1.prems" have "Suc first \<le> j" by simp
        with "1.IH" [OF True \<open>\<not> p (keys ! first)\<close>] "1.prems" eq show ?thesis by simp
      qed
    qed
  next
    case False
    then have "find_if first keys p = length keys" by (subst find_if.simps) simp
    with "1.prems" False show ?thesis by simp
  qed
qed


lemma stdout_only [simp]:
  "files (print w l) = files w" "unwritable (print w l) = unwritable w"
  by (simp_all add: print_def)

lemma convert_loop_files:
  "files (final_world (convert_loop X keys iter data w)) = files w \<and>
   unwritable (final_world (convert_loop X keys iter data w)) = unwritable w"
proof (induction X keys iter data w rule: convert_loop.induct)
  case (1 X keys iter data w)
  show ?case
  proof (cases "iter < length keys \<and> str_find (keys ! iter) ''weight'' \<noteq> None \<and> iter < length data")
    case False
    then show ?thesis by (subst (1 2) convert_loop.simps) (auto simp: Let_def)
  next
    case True
    show ?thesis
    proof (cases "convert_to_binary X (data ! iter)")
      case (Inl e)
      with True show ?thesis by (subst (1 2) convert_loop.simps) (auto simp: Let_def)
    next
      case (Inr array)
      with True "1.IH" [OF _ refl _ _ Inr] show ?thesis
        by (subst (1 2) convert_loop.simps) (auto simp: Let_def)
    qed
  qed
qed

lemma convert_loop_returned:
  "convert_loop X keys iter data w = Returned data' w' \<Longrightarrow>
   (iter < length keys \<longrightarrow> containsFilterString (keys ! iter)) \<Longrightarrow>
   length data' = length data \<and>
   (\<forall>j<length keys. iter \<le> j \<and> containsFilterString (keys ! j) \<longrightarrow>
      j < length data \<and> str_find (keys ! j) ''weight'' \<noteq> None \<and>
      convert_to_binary X (data ! j) = Inr (data' ! j)) \<and>
   (\<forall>j<length data. \<not> (iter \<le> j \<and> j < length keys \<and> containsFilterString (keys ! j)) \<longrightarrow>
      data' ! j = data ! j)"
proof (induction X keys iter data w arbitrary: data' w' rule: convert_loop.induct)
  case (1 X keys iter data w)
  show ?case
  proof (cases "iter < length keys")
    case False
    with "1.prems"(1) have "data' = data" by (subst (asm) convert_loop.simps) simp
    with False show ?thesis by auto
  next
    case True
    let ?w1 = "print w (''|- converting weights '' @ keys ! iter @ ''...'')"
    let ?next = "find_if (Suc iter) keys containsFilterString"
    from True "1.prems"(1) have weight: "str_find (keys ! iter) ''weight'' \<noteq> None"
      by (subst (asm) convert_loop.simps) (auto simp: Let_def split: if_splits)
    from True "1.prems"(1) have inside: "iter < length data"
      by (subst (asm) convert_loop.simps) (auto simp: Let_def split: if_splits)
    from True weight inside "1.prems"(1) obtain array where
      conv: "convert_to_binary X (data ! iter) = Inr array" and
      rest: "convert_loop X keys ?next (data[iter := array]) ?w1 = Returned data' w'"
      by (subst (asm) convert_loop.simps) (auto simp: Let_def split: if_splits sum.splits)
    have sat: "?next < length keys \<longrightarrow> containsFilterString (keys ! ?next)"
      by (simp add: find_if_sat)
    from True have ge: "Suc iter \<le> ?next" by (simp add: find_if_ge)
    note IH = "1.IH" [OF True refl _ _ conv rest sat]
    from weight inside have IH': "length data' = length data"
      "\<And>j. j < length keys \<Longrightarrow> ?next \<le> j \<Longrightarrow> containsFilterString (keys ! j) \<Longrightarrow>
         j < length data \<and> str_find (keys ! j) ''weight'' \<noteq> None \<and>
         convert_to_binary X (data[iter := array] ! j) = Inr (data' ! j)"
      "\<And>j. j < length data \<Longrightarrow>
         \<not> (?next \<le> j \<and> j < length keys \<and> containsFilterString (keys ! j)) \<Longrightarrow>
         data' ! j = data[iter := array] ! j"
      using IH by auto
    have at_iter: "data' ! iter = array"
      using IH'(3) [of iter] inside ge by simp
    have sel: "j < length keys \<Longrightarrow> iter \<le> j \<Longrightarrow> containsFilterString (keys ! j) \<Longrightarrow>
        j < length data \<and> str_find (keys ! j) ''weight'' \<noteq> None \<and>
        convert_to_binary X (data ! j) = Inr (data' ! j)" for j
    proof (cases "j = iter")
      case True
      then show ?thesis using weight inside conv at_iter by simp
    next
      case False
      assume a: "j < length keys" "iter \<le> j" "containsFilterString (keys ! j)"
      with False have "Suc iter \<le> j" by simp
      with a(3) have "\<not> j < ?next" using find_if_skip by blast
      then have "?next \<le> j" by simp
      with IH'(2) [OF a(1) this a(3)] False show ?thesis by simp
    qed
    have unsel: "j < length data \<Longrightarrow>
        \<not> (iter \<le> j \<and> j < length keys \<and> containsFilterString (keys ! j)) \<Longrightarrow>
        data' ! j = data ! j" for j
    proof -
      assume a: "j < length data"
        "\<not> (iter \<le> j \<and> j < length keys \<and> containsFilterString (keys ! j))"
      from a(2) True "1.prems"(2) have ne: "j \<noteq> iter" by auto
      from a(2) ge have "\<not> (?next \<le> j \<and> j < length keys \<and> containsFilterString (keys ! j))"
        by auto
      from IH'(3) [OF a(1) this] ne show ?thesis by simp
    qed
    from IH'(1) sel unsel show ?thesis by blast
  qed
qed


lemma convert_loop_all:
  assumes "convert_loop X keys (find_if 0 keys containsFilterString) data w = Returned data' w'"
  shows "length data' = length data"
    and "j < length keys \<Longrightarrow> containsFilterString (keys ! j) \<Longrightarrow>
       j < length data \<and> str_find (keys ! j) ''weight'' \<noteq> None \<and>
       convert_to_binary X (data ! j) = Inr (data' ! j)"
    and "j < length data \<Longrightarrow> \<not> (j < length keys \<and> containsFilterString (keys ! j)) \<Longrightarrow>
       data' ! j = data ! j"
proof -
  let ?first = "find_if 0 keys containsFilterString"
  have "?first < length keys \<longrightarrow> containsFilterString (keys ! ?first)"
    by (blast intro: find_if_sat)
  note all = convert_loop_returned [OF assms this]
  from all show "length data' = length data" by blast
  show "j < length data \<and> str_find (keys ! j) ''weight'' \<noteq> None \<and>
       convert_to_binary X (data ! j) = Inr (data' ! j)"
    if j: "j < length keys" "containsFilterString (keys ! j)"
  proof -
    from j(2) have "\<not> j < ?first" using find_if_skip [of 0 j keys containsFilterString] by blast
    then have "?first \<le> j" by simp
    with all j show ?thesis by blast
  qed
  show "data' ! j = data ! j"
    if "j < length data" "\<not> (j < length keys \<and> containsFilterString (keys ! j))"
    using all that by blast
qed

lemma convert_to_binary_Inr:
  "convert_to_binary X t = Inr t' \<longleftrightarrow>
     mshadow_sizeof (dtype t) = sizeof_BINARY_WORD X \<and> 2 \<le> length (shape t) \<and>
     shape t ! 1 mod BITS_PER_BINARY_WORD X = 0 \<and>
     t' = \<lparr>shape = [Size (shape t) div BITS_PER_BINARY_WORD X], dtype = dtype t,
            dptr = get_binary_row X (dptr t) (Size (shape t))\<rparr>"
  by (auto simp: convert_to_binary_def Let_def)

lemma convert_to_binary_changes: "convert_to_binary X t \<noteq> Inr t"
proof
  assume "convert_to_binary X t = Inr t"
  then have "2 \<le> length (shape t)" and "shape t = [Size (shape t) div BITS_PER_BINARY_WORD X]"
    unfolding convert_to_binary_Inr by (simp, cases t, simp)
  from arg_cong [OF this(2), of length] this(1) show False by simp
qed

lemma convert_params_file_returned:
  assumes "convert_params_file X inp outp w = Returned r w'"
  shows "\<exists>entries data' w2.
     files w inp = Some (NDArrayList entries) \<and>
     convert_loop X (map fst entries) (find_if 0 (map fst entries) containsFilterString)
       (map snd entries) (print w (''loading '' @ inp @ ''...'')) = Returned data' w2 \<and>
     outp \<notin> unwritable w \<and>
     files w' = (files w)(outp \<mapsto> NDArrayList (zip (map fst entries) data')) \<and>
     r = 0"
proof -
  let ?w1 = "print w (''loading '' @ inp @ ''...'')"
  from assms obtain data keys where load: "Load ?w1 inp = Inr (data, keys)"
    by (auto simp: convert_params_file_def Let_def split: sum.splits)
  then obtain entries where e: "files w inp = Some (NDArrayList entries)"
    "data = map snd entries" "keys = map fst entries"
    by (auto simp: Load_def split: option.splits content.splits)
  let ?loop = "convert_loop X keys (find_if 0 keys containsFilterString) data ?w1"
  from assms load obtain data' w2 where loop: "?loop = Returned data' w2"
    by (auto simp: convert_params_file_def Let_def split: outcome.splits)
  from convert_loop_files [of X keys "find_if 0 keys containsFilterString" data ?w1] loop
  have same: "files w2 = files w" "unwritable w2 = unwritable w" by simp_all
  from assms load loop obtain w3 where save: "Save w2 outp data' keys = Inr w3"
    and fin: "Returned r w' = Returned 0 (print w3 (''wrote converted params to '' @ outp))"
    by (auto simp: convert_params_file_def Let_def split: sum.splits)
  from save same have "outp \<notin> unwritable w"
    and "files w3 = (files w)(outp \<mapsto> NDArrayList (zip keys data'))"
    by (auto simp: Save_def split: if_splits)
  with fin e loop show ?thesis by auto
qed

lemma convert_params_file_aborted:
  assumes "convert_params_file X inp outp w = Aborted e w'"
  shows "files w' = files w"
proof -
  let ?w1 = "print w (''loading '' @ inp @ ''...'')"
  show ?thesis
  proof (cases "Load ?w1 inp")
    case (Inl e')
    with assms show ?thesis by (auto simp: convert_params_file_def Let_def)
  next
    case (Inr p)
    obtain data keys where p: "p = (data, keys)" by (cases p)
    let ?loop = "convert_loop X keys (find_if 0 keys containsFilterString) data ?w1"
    have same: "files (final_world ?loop) = files w"
      using convert_loop_files [of X keys "find_if 0 keys containsFilterString" data ?w1] by simp
    show ?thesis
    proof (cases ?loop)
      case (Aborted e2 w2)
      with assms Inr p same show ?thesis by (auto simp: convert_params_file_def Let_def)
    next
      case (Returned data' w2)
      with assms Inr p same show ?thesis
        by (auto simp: convert_params_file_def Let_def split: sum.splits)
    qed
  qed
qed


text \<open>
  Claim C1. When the packer returns, the input was a checkpoint, the output file holds
  a checkpoint with the same names in the same order, and for every entry: its array
  in the output is the packed form of its array in the input if and only if its name
  contains \<open>qconvolution\<close> or \<open>qfullyconnected\<close> and also contains \<open>weight\<close>;
  an entry whose name contains neither of the two filter strings is in the output as
  it was, name and array, at its position.
\<close>
theorem selection_law:
  assumes "convert_params_file X inp outp w = Returned r w'"
  shows "\<exists>entries out.
     files w inp = Some (NDArrayList entries) \<and>
     files w' outp = Some (NDArrayList out) \<and>
     map fst out = map fst entries \<and>
     (\<forall>i<length entries.
        (convert_to_binary X (snd (entries ! i)) = Inr (snd (out ! i)) \<longleftrightarrow>
           (sublist ''qconvolution'' (fst (entries ! i)) \<or>
            sublist ''qfullyconnected'' (fst (entries ! i))) \<and>
           sublist ''weight'' (fst (entries ! i))) \<and>
        (\<not> sublist ''qconvolution'' (fst (entries ! i)) \<and>
         \<not> sublist ''qfullyconnected'' (fst (entries ! i)) \<longrightarrow>
           out ! i = entries ! i))"
proof -
  from convert_params_file_returned [OF assms] obtain entries data' w2 where
    inp: "files w inp = Some (NDArrayList entries)" and
    loop: "convert_loop X (map fst entries) (find_if 0 (map fst entries) containsFilterString)
       (map snd entries) (print w (''loading '' @ inp @ ''...'')) = Returned data' w2" and
    out: "files w' = (files w)(outp \<mapsto> NDArrayList (zip (map fst entries) data'))"
    by blast
  let ?keys = "map fst entries" and ?data = "map snd entries"
  let ?out = "zip ?keys data'"
  note all = convert_loop_all [OF loop]
  have len: "length data' = length entries" using all(1) by simp
  have sel: "str_find (fst (entries ! j)) ''weight'' \<noteq> None \<and>
       convert_to_binary X (snd (entries ! j)) = Inr (data' ! j)"
    if "j < length entries" "containsFilterString (fst (entries ! j))" for j
    using all(2) [of j] that by simp
  have unsel: "data' ! j = snd (entries ! j)"
    if "j < length entries" "\<not> containsFilterString (fst (entries ! j))" for j
    using all(3) [of j] that by simp
  have names: "map fst ?out = map fst entries" using len by simp
  have each: "(convert_to_binary X (snd (entries ! i)) = Inr (snd (?out ! i)) \<longleftrightarrow>
           (sublist ''qconvolution'' (fst (entries ! i)) \<or>
            sublist ''qfullyconnected'' (fst (entries ! i))) \<and>
           sublist ''weight'' (fst (entries ! i))) \<and>
        (\<not> sublist ''qconvolution'' (fst (entries ! i)) \<and>
         \<not> sublist ''qfullyconnected'' (fst (entries ! i)) \<longrightarrow>
           ?out ! i = entries ! i)" if i: "i < length entries" for i
  proof (cases "containsFilterString (fst (entries ! i))")
    case True
    with sel [OF i] i len show ?thesis
      by (auto simp: containsFilterString_iff str_find_Some)
  next
    case False
    with unsel [OF i] i len have same: "?out ! i = entries ! i"
      by (simp add: prod_eq_iff)
    with False show ?thesis
      by (simp add: containsFilterString_iff convert_to_binary_changes)
  qed
  from inp out names each show ?thesis by auto
qed

text \<open>
  Claim C2. For an array with at least two dimensions whose second dimension is a
  multiple of \<open>BITS_PER_BINARY_WORD\<close>: whatever \<open>convert_to_binary\<close> returns
  has one dimension, of length the number of elements divided by
  \<open>BITS_PER_BINARY_WORD\<close>; and it does return an array when the byte size of the
  element type is that of \<open>BINARY_WORD\<close>, the first assertion of the function.
\<close>
theorem packed_shape:
  assumes "2 \<le> length (shape t)" and "shape t ! 1 mod BITS_PER_BINARY_WORD X = 0"
  shows "(mshadow_sizeof (dtype t) = sizeof_BINARY_WORD X \<longrightarrow>
            (\<exists>t'. convert_to_binary X t = Inr t')) \<and>
         (\<forall>t'. convert_to_binary X t = Inr t' \<longrightarrow>
            shape t' = [Size (shape t) div BITS_PER_BINARY_WORD X])"
  using assms by (simp add: convert_to_binary_Inr)

text \<open>
  Claim C5, as amended. The array that \<open>convert_to_binary\<close> returns keeps the type
  flag of its argument; the byte size of that type is the byte size of
  \<open>BINARY_WORD\<close>, and the buffer holds the words that \<open>get_binary_row\<close> wrote.
\<close>
theorem packed_dtype:
  assumes "convert_to_binary X t = Inr t'"
  shows "dtype t' = dtype t \<and> mshadow_sizeof (dtype t') = sizeof_BINARY_WORD X \<and>
         dptr t' = get_binary_row X (dptr t) (Size (shape t))"
  using assms by (simp add: convert_to_binary_Inr)

lemma selected_entry_checked:
  assumes inp: "files w inp = Some (NDArrayList entries)"
    and mem: "(name, t) \<in> set entries"
    and sel: "sublist ''qconvolution'' name \<or> sublist ''qfullyconnected'' name"
    and ret: "convert_params_file X inp outp w = Returned r w'"
  shows "sublist ''weight'' name \<and> (\<exists>t'. convert_to_binary X t = Inr t')"
proof -
  from convert_params_file_returned [OF ret] inp obtain data' w2 where
    loop: "convert_loop X (map fst entries) (find_if 0 (map fst entries) containsFilterString)
       (map snd entries) (print w (''loading '' @ inp @ ''...'')) = Returned data' w2"
    by auto
  from mem obtain j where j: "j < length entries" "entries ! j = (name, t)"
    by (auto simp: in_set_conv_nth)
  from convert_loop_all(2) [OF loop, of j] j sel
  show ?thesis by (simp add: containsFilterString_iff str_find_Some)
qed

lemma aborted_or_returned:
  "(\<exists>e w'. (x :: ('r, 'a) outcome) = Aborted e w') \<or> (\<exists>r w'. x = Returned r w')"
  by (cases x) auto

text \<open>
  Claim C7. If the checkpoint holds an entry whose name contains a filter string and
  \<open>weight\<close> and whose second dimension is no multiple of
  \<open>BITS_PER_BINARY_WORD\<close>, the packer does not return: the run is aborted, and the
  files are then as they were before the run.
\<close>
theorem dimension_law:
  assumes "files w inp = Some (NDArrayList entries)"
    and "(name, t) \<in> set entries"
    and "sublist ''qconvolution'' name \<or> sublist ''qfullyconnected'' name"
    and "sublist ''weight'' name"
    and "2 \<le> length (shape t)"
    and "shape t ! 1 mod BITS_PER_BINARY_WORD X \<noteq> 0"
  shows "\<exists>e w'. convert_params_file X inp outp w = Aborted e w' \<and> files w' = files w"
proof -
  have "convert_params_file X inp outp w \<noteq> Returned r w'" for r w'
    using selected_entry_checked [OF assms(1-3)] assms(6)
    by (auto simp: convert_to_binary_Inr)
  with aborted_or_returned [of "convert_params_file X inp outp w"]
  show ?thesis by (auto dest: convert_params_file_aborted)
qed

text \<open>
  Claim C8. If the checkpoint holds an entry whose name contains a filter string and
  does not contain \<open>weight\<close>, the packer does not return: the run is aborted, and the
  files are then as they were before the run.
\<close>
theorem weight_only:
  assumes "files w inp = Some (NDArrayList entries)"
    and "(name, t) \<in> set entries"
    and "sublist ''qconvolution'' name \<or> sublist ''qfullyconnected'' name"
    and "\<not> sublist ''weight'' name"
  shows "\<exists>e w'. convert_params_file X inp outp w = Aborted e w' \<and> files w' = files w"
proof -
  have "convert_params_file X inp outp w \<noteq> Returned r w'" for r w'
    using selected_entry_checked [OF assms(1-3)] assms(4) by auto
  with aborted_or_returned [of "convert_params_file X inp outp w"]
  show ?thesis by (auto dest: convert_params_file_aborted)
qed

text \<open>
  Claim C10. When \<open>convert_params_file\<close> returns, it returns 0, and none of the
  failures was present: the input could be read as a checkpoint, and every entry whose
  name contains a filter string has \<open>weight\<close> in its name and an array that passes
  the three assertions of \<open>convert_to_binary\<close>. So each of these failures ends the
  run in \<open>Aborted\<close>, the only other outcome.
\<close>
theorem packer_returns_zero:
  assumes "convert_params_file X inp outp w = Returned r w'"
  shows "r = 0 \<and>
     (\<exists>entries. files w inp = Some (NDArrayList entries) \<and>
        (\<forall>(name, t) \<in> set entries.
           sublist ''qconvolution'' name \<or> sublist ''qfullyconnected'' name \<longrightarrow>
             sublist ''weight'' name \<and> 2 \<le> length (shape t) \<and>
             shape t ! 1 mod BITS_PER_BINARY_WORD X = 0 \<and>
             mshadow_sizeof (dtype t) = sizeof_BINARY_WORD X))"
proof -
  from convert_params_file_returned [OF assms] obtain entries where
    inp: "files w inp = Some (NDArrayList entries)" and r: "r = 0" by blast
  have "sublist ''weight'' name \<and> 2 \<le> length (shape t) \<and>
        shape t ! 1 mod BITS_PER_BINARY_WORD X = 0 \<and>
        mshadow_sizeof (dtype t) = sizeof_BINARY_WORD X"
    if "(name, t) \<in> set entries"
      "sublist ''qconvolution'' name \<or> sublist ''qfullyconnected'' name" for name t
    using selected_entry_checked [OF inp that assms] by (auto simp: convert_to_binary_Inr)
  with inp r show ?thesis by auto
qed


lemma pack_all_ones: "get_binary_row32 (replicate 32 1) 32 = [4294967295]"
  by code_simp

lemma weights0_packed: "convert_to_binary xnor32 weights0 = Inr packed0"
  by (simp add: convert_to_binary_def weights0_def packed0_def xnor32_def Size_def
      pack_all_ones)

lemma sublist_str_find: "sublist pat s \<longleftrightarrow> str_find s pat \<noteq> None"
  using str_find_sublist [of s pat] by blast

lemma packer_run0:
  "convert_params_file xnor32 ''m-0.params'' ''./binarized_m-0.params'' world0 = Returned 0 world1"
  by (simp add: convert_params_file_def Load_def Save_def world0_def world1_def checkpoint0_def
      find_if.simps convert_loop.simps containsFilterString_def containsSubString_def
      filter_strings_def print_def weights0_packed Let_def)


theorem selection_law_witness:
  "convert_params_file xnor32 ''m-0.params'' ''./binarized_m-0.params'' world0 = Returned 0 world1 \<and>
   (\<exists>entries out.
     files world0 ''m-0.params'' = Some (NDArrayList entries) \<and>
     files world1 ''./binarized_m-0.params'' = Some (NDArrayList out) \<and>
     map fst out = map fst entries \<and>
     (\<forall>i<length entries.
        (convert_to_binary xnor32 (snd (entries ! i)) = Inr (snd (out ! i)) \<longleftrightarrow>
           (sublist ''qconvolution'' (fst (entries ! i)) \<or>
            sublist ''qfullyconnected'' (fst (entries ! i))) \<and>
           sublist ''weight'' (fst (entries ! i))) \<and>
        (\<not> sublist ''qconvolution'' (fst (entries ! i)) \<and>
         \<not> sublist ''qfullyconnected'' (fst (entries ! i)) \<longrightarrow>
           out ! i = entries ! i)))"
  using selection_law [OF packer_run0] packer_run0 by simp

theorem packed_shape_witness:
  "2 \<le> length (shape weights0) \<and>
   shape weights0 ! 1 mod BITS_PER_BINARY_WORD xnor32 = 0 \<and>
   mshadow_sizeof (dtype weights0) = sizeof_BINARY_WORD xnor32 \<and>
   convert_to_binary xnor32 weights0 = Inr packed0 \<and>
   shape packed0 = [Size (shape weights0) div BITS_PER_BINARY_WORD xnor32]"
proof -
  have h: "2 \<le> length (shape weights0)" "shape weights0 ! 1 mod BITS_PER_BINARY_WORD xnor32 = 0"
    by (simp_all add: weights0_def xnor32_def)
  have s: "mshadow_sizeof (dtype weights0) = sizeof_BINARY_WORD xnor32"
    by (simp add: weights0_def xnor32_def)
  from packed_shape [OF h] weights0_packed h s show ?thesis by simp
qed

theorem packed_dtype_witness:
  "convert_to_binary xnor32 weights0 = Inr packed0 \<and>
   dtype packed0 = dtype weights0 \<and> dtype packed0 = kFloat32 \<and>
   mshadow_sizeof (dtype packed0) = sizeof_BINARY_WORD xnor32 \<and>
   dptr packed0 = get_binary_row xnor32 (dptr weights0) (Size (shape weights0))"
  using packed_dtype [OF weights0_packed] weights0_packed by (simp add: packed0_def)

theorem dimension_law_witness:
  "files worldB ''m-0.params'' = Some (NDArrayList [(''qconvolution0_weight'', weightsB)]) \<and>
   sublist ''qconvolution'' ''qconvolution0_weight'' \<and>
   sublist ''weight'' ''qconvolution0_weight'' \<and>
   2 \<le> length (shape weightsB) \<and>
   shape weightsB ! 1 mod BITS_PER_BINARY_WORD xnor32 \<noteq> 0 \<and>
   (\<exists>e w'. convert_params_file xnor32 ''m-0.params'' ''./binarized_m-0.params'' worldB = Aborted e w' \<and>
      files w' = files worldB)"
proof -
  have f: "files worldB ''m-0.params'' = Some (NDArrayList [(''qconvolution0_weight'', weightsB)])"
    by (simp add: worldB_def)
  have m: "(''qconvolution0_weight'', weightsB) \<in> set [(''qconvolution0_weight'', weightsB)]"
    by simp
  have q: "sublist ''qconvolution'' ''qconvolution0_weight''"
    by (simp add: sublist_str_find)
  have k: "sublist ''weight'' ''qconvolution0_weight''"
    by (simp add: sublist_str_find)
  have d: "2 \<le> length (shape weightsB)" "shape weightsB ! 1 mod BITS_PER_BINARY_WORD xnor32 \<noteq> 0"
    by (simp_all add: weightsB_def xnor32_def)
  from dimension_law [OF f m disjI1 [OF q] k d] f q k d show ?thesis by blast
qed

theorem weight_only_witness:
  "files worldC ''m-0.params'' = Some (NDArrayList [(''qfullyconnected0_bias'', bias0)]) \<and>
   sublist ''qfullyconnected'' ''qfullyconnected0_bias'' \<and>
   \<not> sublist ''weight'' ''qfullyconnected0_bias'' \<and>
   (\<exists>e w'. convert_params_file xnor32 ''m-0.params'' ''./binarized_m-0.params'' worldC = Aborted e w' \<and>
      files w' = files worldC)"
proof -
  have f: "files worldC ''m-0.params'' = Some (NDArrayList [(''qfullyconnected0_bias'', bias0)])"
    by (simp add: worldC_def)
  have m: "(''qfullyconnected0_bias'', bias0) \<in> set [(''qfullyconnected0_bias'', bias0)]"
    by simp
  have q: "sublist ''qfullyconnected'' ''qfullyconnected0_bias''"
    by (simp add: sublist_str_find)
  have k: "\<not> sublist ''weight'' ''qfullyconnected0_bias''"
    by (simp add: sublist_str_find)
  from weight_only [OF f m disjI2 [OF q] k] f q k show ?thesis by blast
qed

theorem packer_returns_zero_witness:
  "convert_params_file xnor32 ''m-0.params'' ''./binarized_m-0.params'' world0 = Returned 0 world1 \<and>
   (\<exists>entries. files world0 ''m-0.params'' = Some (NDArrayList entries) \<and>
        (\<forall>(name, t) \<in> set entries.
           sublist ''qconvolution'' name \<or> sublist ''qfullyconnected'' name \<longrightarrow>
             sublist ''weight'' name \<and> 2 \<le> length (shape t) \<and>
             shape t ! 1 mod BITS_PER_BINARY_WORD xnor32 = 0 \<and>
             mshadow_sizeof (dtype t) = sizeof_BINARY_WORD xnor32))"
  using packer_returns_zero [OF packer_run0] packer_run0 by simp

text \<open>
  Claim C5 as stated fails: the packed form of an array of type \<open>kFloat32\<close> has the
  type flag \<open>kFloat32\<close>, a floating-point type, not the type of \<open>BINARY_WORD\<close>.
\<close>

theorem packed_dtype_counterexample:
  "convert_to_binary xnor32 weights0 = Inr packed0 \<and>
   dtype weights0 = kFloat32 \<and> dtype packed0 = kFloat32"
  by (simp add: weights0_packed) (simp add: weights0_def packed0_def)

section \<open>Properties of the graph annotator and the driver\<close>

lemma strcmp_zero: "strcmp a b = 0 \<longleftrightarrow> c_str a = c_str b"
  by (induction a b rule: strcmp.induct) (auto simp: c_str_def)

lemma c_str_literal [simp]:
  "c_str ''QConvolution'' = ''QConvolution''" "c_str ''QFullyConnected'' = ''QFullyConnected''"
  by (simp_all add: c_str_def)

lemma map_fst_store_member [simp]: "map fst (store_member name v ms) = map fst ms"
  by (induction ms) auto

lemma map_of_store_member:
  "map_of (store_member name v ms) k =
     (if k = name \<and> map_of ms name \<noteq> None then Some v else map_of ms k)"
  by (induction ms) auto

lemma store_member_twice [simp]:
  "store_member name v (store_member name u ms) = store_member name v ms"
  by (induction ms) auto

lemma is_binary_op_eq:
  "is_binary_op n =
     (case n of JObject ms \<Rightarrow> Inr (reads_as_binary_op n)
      | _ \<Rightarrow> Inl (RapidjsonAssert ''IsObject()''))"
  by (auto simp: is_binary_op_def reads_as_binary_op_def HasMember_def Member_def IsString_def
      GetString_def strcmp_zero split: json.splits option.splits bool.splits)


lemma adjust_node_object:
  "adjust_node (JObject ms) w =
     (if \<not> reads_as_binary_op (JObject ms) then Returned (JObject ms) w
      else
        (case map_of ms ''attr'' of
           None \<Rightarrow> Aborted (AssertionFailed 131) w
         | Some (JObject attrs) \<Rightarrow>
             (case map_of ms ''name'' of
                None \<Rightarrow> Aborted (AssertionFailed 135) w
              | Some (JString s) \<Rightarrow>
                  Returned
                    (JObject (store_member ''attr''
                       (JObject (attrs @ [(''binarized_weights_only'', JString ''True'')])) ms))
                    (print w (''|- adjusting attributes for '' @ c_str s))
              | Some _ \<Rightarrow> Aborted (RapidjsonAssert ''IsString()'') w)
         | Some _ \<Rightarrow> Aborted (RapidjsonAssert ''IsObject()'') w))"
  by (simp add: adjust_node_def is_binary_op_eq HasMember_def Member_def AddMember_def
      assign_member_def GetString_def map_of_store_member Let_def
      split: option.splits json.splits)

lemma adjust_node_other:
  "\<forall>ms. n \<noteq> JObject ms \<Longrightarrow> adjust_node n w = Aborted (RapidjsonAssert ''IsObject()'') w"
  by (cases n) (simp_all add: adjust_node_def is_binary_op_eq)

lemma adjust_node_Returned:
  assumes "adjust_node n w = Returned n' w'"
  shows "adjusted_to n n' \<and> files w' = files w \<and> unwritable w' = unwritable w"
proof (cases n)
  case (JObject ms)
  with assms show ?thesis
    by (auto simp: adjust_node_object adjusted_to_def flagged_def
        split: if_splits option.splits json.splits)
qed (use assms adjust_node_other [of n w] in auto)

lemma adjust_node_Aborted:
  assumes "adjust_node n w = Aborted e w'"
  shows "w' = w"
proof (cases n)
  case (JObject ms)
  with assms show ?thesis
    by (auto simp: adjust_node_object split: if_splits option.splits json.splits)
qed (use assms adjust_node_other [of n w] in auto)

lemma adjust_nodes_files:
  "files (final_world (adjust_nodes ns w)) = files w \<and>
   unwritable (final_world (adjust_nodes ns w)) = unwritable w"
proof (induction ns arbitrary: w)
  case Nil
  show ?case by simp
next
  case (Cons n ns)
  show ?case
  proof (cases "adjust_node n w")
    case (Aborted e w1)
    with adjust_node_Aborted [OF this] show ?thesis by simp
  next
    case (Returned n' w1)
    from adjust_node_Returned [OF this] Cons.IH [of w1] Returned show ?thesis
      by (cases "adjust_nodes ns w1") simp_all
  qed
qed

lemma adjust_nodes_Returned:
  "adjust_nodes ns w = Returned ns' w' \<Longrightarrow> list_all2 adjusted_to ns ns'"
proof (induction ns arbitrary: w ns' w')
  case Nil
  then show ?case by simp
next
  case (Cons n ns)
  from Cons.prems obtain n' w1 where n: "adjust_node n w = Returned n' w1"
    by (cases "adjust_node n w") simp_all
  with Cons.prems obtain rest where r: "adjust_nodes ns w1 = Returned rest w'" "ns' = n' # rest"
    by (cases "adjust_nodes ns w1") auto
  from adjust_node_Returned [OF n] Cons.IH [OF r(1)] r(2) show ?case by simp
qed


lemma flagged_changes: "flagged (Suc k) n \<noteq> Some n"
proof
  assume a: "flagged (Suc k) n = Some n"
  then obtain ms attrs where n: "n = JObject ms" and at: "map_of ms ''attr'' = Some (JObject attrs)"
    by (auto simp: flagged_def split: json.splits option.splits)
  let ?f = "(''binarized_weights_only'', JString ''True'')"
  from a n at have "store_member ''attr'' (JObject (attrs @ replicate (Suc k) ?f)) ms = ms"
    by (simp add: flagged_def)
  then have "map_of (store_member ''attr'' (JObject (attrs @ replicate (Suc k) ?f)) ms) ''attr''
      = map_of ms ''attr''" by simp
  with at show False by (simp add: map_of_store_member)
qed



lemma adjust_document_object:
  "adjust_document (JObject ms) w =
     (case map_of ms ''nodes'' of
        None \<Rightarrow> Aborted (AssertionFailed 120) w
      | Some (JArray ns) \<Rightarrow>
          (case adjust_nodes ns w of
             Aborted e w1 \<Rightarrow> Aborted e w1
           | Returned ns' w1 \<Rightarrow> Returned (JObject (store_member ''nodes'' (JArray ns') ms)) w1)
      | Some _ \<Rightarrow> Aborted (AssertionFailed 122) w)"
  by (simp add: adjust_document_def HasMember_def Member_def assign_member_def
      split: option.splits json.splits outcome.splits)

lemma adjust_document_other:
  "\<forall>ms. d \<noteq> JObject ms \<Longrightarrow> adjust_document d w = Aborted (RapidjsonAssert ''IsObject()'') w"
  by (cases d) (simp_all add: adjust_document_def HasMember_def)

lemma adjust_document_Returned:
  assumes "adjust_document d w = Returned d' w'"
  shows "\<exists>ms ns ns'. d = JObject ms \<and> map_of ms ''nodes'' = Some (JArray ns) \<and>
     adjust_nodes ns w = Returned ns' w' \<and>
     d' = JObject (store_member ''nodes'' (JArray ns') ms)"
proof (cases d)
  case (JObject ms)
  with assms show ?thesis
    by (simp add: adjust_document_object split: option.splits json.splits outcome.splits)
qed (use assms adjust_document_other [of d w] in auto)

lemma adjust_document_files:
  "files (final_world (adjust_document d w)) = files w \<and>
   unwritable (final_world (adjust_document d w)) = unwritable w"
proof (cases d)
  case (JObject ms)
  show ?thesis
  proof (cases "\<exists>ns. map_of ms ''nodes'' = Some (JArray ns)")
    case True
    then obtain ns where ns: "map_of ms ''nodes'' = Some (JArray ns)" by blast
    from adjust_nodes_files [of ns w] show ?thesis
      unfolding JObject adjust_document_object ns
      by (cases "adjust_nodes ns w") simp_all
  next
    case False
    then show ?thesis
      unfolding JObject adjust_document_object
      by (simp split: option.splits json.splits)
  qed
qed (simp_all add: adjust_document_other)

lemma convert_json_file_present:
  "files w inp = Some c \<Longrightarrow>
   convert_json_file inp outp w =
     (case adjust_document (Parse c) (print w (''loading '' @ inp @ ''...'')) of
        Aborted e w2 \<Rightarrow> Aborted e w2
      | Returned d w2 \<Rightarrow>
          if outp \<in> unwritable w2 then
            Returned (- 1) (print w2 (''cant find json file at '' @ outp))
          else
            Returned 0
              (print (w2\<lparr>files := (files w2)(outp \<mapsto> JsonText d)\<rparr>)
                 (''wrote converted json to '' @ outp)))"
  by (simp add: convert_json_file_def Let_def)

lemma convert_json_file_missing:
  "files w inp = None \<Longrightarrow>
   convert_json_file inp outp w =
     Returned (- 1) (print (print w (''loading '' @ inp @ ''...''))
       (''cant find json file at '' @ inp))"
  by (simp add: convert_json_file_def Let_def)

lemma convert_json_file_Returned:
  assumes "convert_json_file inp outp w = Returned 0 w'"
  shows "\<exists>c d' w2. files w inp = Some c \<and>
     adjust_document (Parse c) (print w (''loading '' @ inp @ ''...'')) = Returned d' w2 \<and>
     outp \<notin> unwritable w \<and> files w' = (files w)(outp \<mapsto> JsonText d') \<and>
     unwritable w' = unwritable w"
proof (cases "files w inp")
  case None
  from assms show ?thesis unfolding convert_json_file_missing [OF None] by simp
next
  case (Some c)
  let ?w1 = "print w (''loading '' @ inp @ ''...'')"
  show ?thesis
  proof (cases "adjust_document (Parse c) ?w1")
    case (Aborted e w2)
    with assms show ?thesis unfolding convert_json_file_present [OF Some] by simp
  next
    case (Returned d' w2)
    from adjust_document_files [of "Parse c" ?w1] Returned
    have same: "files w2 = files w" "unwritable w2 = unwritable w" by simp_all
    from assms have *: "outp \<notin> unwritable w2 \<and>
        w' = print (w2\<lparr>files := (files w2)(outp \<mapsto> JsonText d')\<rparr>)
               (''wrote converted json to '' @ outp)"
      unfolding convert_json_file_present [OF Some] Returned
      by (simp split: if_splits)
    then have "files w' = (files w)(outp \<mapsto> JsonText d')" "unwritable w' = unwritable w"
      using same by simp_all
    with * same Some Returned show ?thesis by blast
  qed
qed

lemma Parse_object: "Parse c = JObject ms \<Longrightarrow> c = JsonText (JObject ms)"
  by (cases c) (simp_all add: Parse_def)

text \<open>
  Claim C3, as amended. When the annotator returns 0, the input was a document with an
  array \<open>nodes\<close>, and the output file holds that document with only the array
  replaced by one of the same length. At every position: the node of the output is the
  node of the input with the flag appended once to its \<open>attr\<close> if and only if the
  node reads as a binary layer (its \<open>op\<close> is a string that is \<open>QConvolution\<close> or
  \<open>QFullyConnected\<close> up to its first NUL); a node that does not read so is unchanged.
\<close>
theorem annotation_law:
  assumes "convert_json_file inp outp w = Returned 0 w'"
  shows "\<exists>ms ns ns'.
     files w inp = Some (JsonText (JObject ms)) \<and>
     map_of ms ''nodes'' = Some (JArray ns) \<and>
     files w' outp = Some (JsonText (JObject (store_member ''nodes'' (JArray ns') ms))) \<and>
     length ns' = length ns \<and>
     (\<forall>i<length ns.
        (flagged 1 (ns ! i) = Some (ns' ! i) \<longleftrightarrow> reads_as_binary_op (ns ! i)) \<and>
        (\<not> reads_as_binary_op (ns ! i) \<longrightarrow> ns' ! i = ns ! i))"
proof -
  from convert_json_file_Returned [OF assms] obtain c d' w2 where
    c: "files w inp = Some c" and
    d: "adjust_document (Parse c) (print w (''loading '' @ inp @ ''...'')) = Returned d' w2" and
    out: "files w' = (files w)(outp \<mapsto> JsonText d')" by blast
  from adjust_document_Returned [OF d] obtain ms ns ns' where
    p: "Parse c = JObject ms" and nodes: "map_of ms ''nodes'' = Some (JArray ns)" and
    loop: "adjust_nodes ns (print w (''loading '' @ inp @ ''...'')) = Returned ns' w2" and
    d': "d' = JObject (store_member ''nodes'' (JArray ns') ms)" by blast
  from adjust_nodes_Returned [OF loop] have all: "list_all2 adjusted_to ns ns'" .
  then have len: "length ns' = length ns" by (simp add: list_all2_lengthD)
  have each: "(flagged 1 (ns ! i) = Some (ns' ! i) \<longleftrightarrow> reads_as_binary_op (ns ! i)) \<and>
      (\<not> reads_as_binary_op (ns ! i) \<longrightarrow> ns' ! i = ns ! i)" if "i < length ns" for i
  proof -
    from all that have a: "adjusted_to (ns ! i) (ns' ! i)" by (simp add: list_all2_nthD)
    show ?thesis
    proof (cases "reads_as_binary_op (ns ! i)")
      case True
      with a show ?thesis by (auto simp: adjusted_to_def split: json.splits)
    next
      case False
      with a have "ns' ! i = ns ! i" by (auto simp: adjusted_to_def split: json.splits)
      with False flagged_changes [of 0 "ns ! i"] show ?thesis by simp
    qed
  qed
  from c Parse_object [OF p] nodes out d' len each show ?thesis by auto
qed



lemma run_world0: 
  "convert_json_file ''./m-symbol.json'' ''./binarized_m-symbol.json'' world0 = Returned 0 world0_annotated"
  by (simp add: convert_json_file_present [of _ _ "JsonText graph0"] world0_def world0_annotated_def
      Parse_def graph0_def graph1_def adjust_document_object adjust_node_object reads_as_binary_op_def
      print_def c_str_def)

theorem annotation_law_witness:
  "convert_json_file ''./m-symbol.json'' ''./binarized_m-symbol.json'' world0
     = Returned 0 world0_annotated \<and>
   (\<exists>ms ns ns'.
     files world0 ''./m-symbol.json'' = Some (JsonText (JObject ms)) \<and>
     map_of ms ''nodes'' = Some (JArray ns) \<and>
     files world0_annotated ''./binarized_m-symbol.json''
       = Some (JsonText (JObject (store_member ''nodes'' (JArray ns') ms))) \<and>
     length ns' = length ns \<and>
     (\<forall>i<length ns.
        (flagged 1 (ns ! i) = Some (ns' ! i) \<longleftrightarrow> reads_as_binary_op (ns ! i)) \<and>
        (\<not> reads_as_binary_op (ns ! i) \<longrightarrow> ns' ! i = ns ! i)))"
  using annotation_law [OF run_world0] run_world0 by simp

text \<open>
  Claim C3 as stated fails: the operator string of \<open>graphN\<close> is neither of the two
  names, it only starts with one of them and a NUL, and the node gets the flag.
\<close>
theorem annotation_law_counterexample:
  "files (final_world (convert_json_file ''g.json'' ''out.json'' worldN)) ''out.json''
     = Some (JsonText graphN_annotated) \<and>
   op_with_nul \<noteq> ''QConvolution'' \<and> op_with_nul \<noteq> ''QFullyConnected''"
  by (simp add: convert_json_file_present [of _ _ "JsonText graphN"] worldN_def
      Parse_def graphN_def graphN_annotated_def adjust_document_object adjust_node_object
      reads_as_binary_op_def print_def c_str_def op_with_nul_def)




lemma adjust_nodes_no_attr:
  assumes "JObject nms \<in> set ns" and "reads_as_binary_op (JObject nms)"
    and "map_of nms ''attr'' = None"
  shows "\<exists>e w'. adjust_nodes ns w = Aborted e w'"
proof (cases "adjust_nodes ns w")
  case (Aborted e w')
  then show ?thesis by blast
next
  case (Returned ns' w')
  from adjust_nodes_Returned [OF this] assms(1) obtain n' where "adjusted_to (JObject nms) n'"
    by (auto simp: in_set_conv_nth list_all2_conv_all_nth)
  with assms(2,3) show ?thesis by (simp add: adjusted_to_def flagged_def)
qed

text \<open>
  Claim C6, as amended. If the document has no member \<open>nodes\<close>, or \<open>nodes\<close> is no
  array, or a node that reads as a binary layer has no member \<open>attr\<close>, the annotator
  does not return: the run is aborted, with the files as they were. A node whose
  \<open>op\<close> is present and is no string does not abort the run: the loop body leaves
  it as it is and goes on.
\<close>
theorem malformed_document:
  assumes "files w inp = Some (JsonText d)"
    and "(\<forall>ms. d = JObject ms \<longrightarrow> map_of ms ''nodes'' = None) \<or>
         (\<exists>ms v. d = JObject ms \<and> map_of ms ''nodes'' = Some v \<and> (\<forall>ns. v \<noteq> JArray ns)) \<or>
         (\<exists>ms ns nms. d = JObject ms \<and> map_of ms ''nodes'' = Some (JArray ns) \<and>
            JObject nms \<in> set ns \<and> reads_as_binary_op (JObject nms) \<and>
            map_of nms ''attr'' = None)"
  shows "(\<exists>e w'. convert_json_file inp outp w = Aborted e w' \<and> files w' = files w) \<and>
         (map_of nms ''op'' = Some v \<and> \<not> IsString v \<longrightarrow>
            adjust_node (JObject nms) w0 = Returned (JObject nms) w0)"
proof
  let ?w1 = "print w (''loading '' @ inp @ ''...'')"
  have "\<exists>e w'. adjust_document d ?w1 = Aborted e w'"
  proof (cases d)
    case (JObject ms)
    from assms(2) consider
      (absent) "map_of ms ''nodes'' = None" |
      (other) v where "map_of ms ''nodes'' = Some v" "\<forall>ns. v \<noteq> JArray ns" |
      (node) ns nms where "map_of ms ''nodes'' = Some (JArray ns)" "JObject nms \<in> set ns"
        "reads_as_binary_op (JObject nms)" "map_of nms ''attr'' = None"
      unfolding JObject by auto
    then show ?thesis
    proof cases
      case absent
      then show ?thesis unfolding JObject by (simp add: adjust_document_object)
    next
      case other
      then show ?thesis unfolding JObject
        by (cases v) (simp_all add: adjust_document_object)
    next
      case node
      from adjust_nodes_no_attr [OF node(2-4), of ?w1] node(1) show ?thesis
        unfolding JObject by (auto simp: adjust_document_object)
    qed
  qed (simp_all add: adjust_document_other)
  then obtain e w' where a: "adjust_document d ?w1 = Aborted e w'" by blast
  with adjust_document_files [of d ?w1] have "files w' = files w" by simp
  with a convert_json_file_present [OF assms(1), of outp]
  show "\<exists>e w'. convert_json_file inp outp w = Aborted e w' \<and> files w' = files w"
    by (simp add: Parse_def)
next
  show "map_of nms ''op'' = Some v \<and> \<not> IsString v \<longrightarrow>
      adjust_node (JObject nms) w0 = Returned (JObject nms) w0"
    by (auto simp: adjust_node_object reads_as_binary_op_def IsString_def split: json.splits)
qed

theorem malformed_document_witness:
  "files worldE ''g.json'' = Some (JsonText graphE) \<and>
   graphE = JObject [(''nodes'', JArray
     [JObject [(''op'', JString ''QConvolution''), (''name'', JString ''c0'')]])] \<and>
   reads_as_binary_op (JObject [(''op'', JString ''QConvolution''), (''name'', JString ''c0'')]) \<and>
   (\<exists>e w'. convert_json_file ''g.json'' ''out.json'' worldE = Aborted e w' \<and>
      files w' = files worldE) \<and>
   map_of [(''op'', JInt 5)] ''op'' = Some (JInt 5) \<and> \<not> IsString (JInt 5) \<and>
   adjust_node (JObject [(''op'', JInt 5)]) worldE = Returned (JObject [(''op'', JInt 5)]) worldE"
proof -
  let ?node = "[(''op'', JString ''QConvolution''), (''name'', JString ''c0'')]"
  have f: "files worldE ''g.json'' = Some (JsonText graphE)" by (simp add: worldE_def)
  have r: "reads_as_binary_op (JObject ?node)" by (simp add: reads_as_binary_op_def c_str_def)
  have m: "(\<forall>ms. graphE = JObject ms \<longrightarrow> map_of ms ''nodes'' = None) \<or>
      (\<exists>ms v. graphE = JObject ms \<and> map_of ms ''nodes'' = Some v \<and> (\<forall>ns. v \<noteq> JArray ns)) \<or>
      (\<exists>ms ns nms. graphE = JObject ms \<and> map_of ms ''nodes'' = Some (JArray ns) \<and>
         JObject nms \<in> set ns \<and> reads_as_binary_op (JObject nms) \<and>
         map_of nms ''attr'' = None)"
    using r by (simp add: graphE_def)
  have s: "map_of [(''op'', JInt 5)] ''op'' = Some (JInt 5) \<and> \<not> IsString (JInt 5)"
    by (simp add: IsString_def)
  from malformed_document [OF f m, where outp = "''out.json''" and nms = "[(''op'', JInt 5)]"
      and v = "JInt 5" and ?w0.0 = worldE] f r s
  show ?thesis by (simp add: graphE_def)
qed

text \<open>
  Claim C6 as stated fails: the only node of \<open>graphD\<close> has a number as \<open>op\<close>, and
  the annotator returns 0 and writes the document unchanged.
\<close>
theorem malformed_document_counterexample:
  "convert_json_file ''g.json'' ''out.json'' worldD = Returned 0 worldD_annotated"
  by (simp add: convert_json_file_present [of _ _ "JsonText graphD"] worldD_def
      worldD_annotated_def Parse_def graphD_def adjust_document_object adjust_node_object
      reads_as_binary_op_def print_def)


lemma main_one_argument:
  assumes "dirname L arg = (path, arg')"
    and "str_rfind (basename L arg') CHR ''-'' = Some pos"
  shows "main L X argv0 [arg] w =
     (case convert_params_file X arg (output_name path (basename L arg')) w of
        Aborted e w1 \<Rightarrow> Aborted e w1
      | Returned r1 w1 \<Rightarrow>
          if r1 \<noteq> 0 then Returned 1 w1
          else
            (case convert_json_file (json_file_name path (take pos (basename L arg')))
                    (json_out_fname path (take pos (basename L arg'))) w1 of
               Aborted e w2 \<Rightarrow> Aborted e w2
             | Returned r2 w2 \<Rightarrow> if r2 \<noteq> 0 then Returned 1 w2 else Returned 0 w2))"
  using assms by (simp add: main_def Let_def split: outcome.splits)

lemma annotator_after_packer:
  assumes "dirname L arg = (path, arg')"
    and "str_rfind (basename L arg') CHR ''-'' = Some pos"
    and "convert_params_file X arg (output_name path (basename L arg')) w = Aborted e w1"
  shows "main L X argv0 [arg] w = Aborted e w1"
  by (simp add: main_one_argument [OF assms(1,2)] assms(3))

text \<open>
  Claim C9. In a run with one argument in which the packer has returned and the graph
  file \<open>jf\<close> derived from the argument cannot be opened for reading: the annotator
  prints that it cannot find the file and returns \<open>-1\<close>, the files are as the packer
  left them (no output file of the annotator is created), \<open>main\<close> returns 1, and the
  exit status is not 0.
\<close>
theorem missing_graph_file:
  assumes "dirname L arg = (path, arg')"
    and "str_rfind (basename L arg') CHR ''-'' = Some pos"
    and "convert_params_file X arg (output_name path (basename L arg')) w = Returned r w1"
    and "jf = json_file_name path (take pos (basename L arg'))"
    and "files w1 jf = None"
    and "w2 = w1\<lparr>stdout := stdout w1 @
           [''loading '' @ jf @ ''...'', ''cant find json file at '' @ jf]\<rparr>"
  shows "convert_json_file jf (json_out_fname path (take pos (basename L arg'))) w1
           = Returned (- 1) w2 \<and>
         files w2 = files w1 \<and>
         main L X argv0 [arg] w = Returned 1 w2 \<and>
         exit_status 1 \<noteq> 0"
proof -
  from convert_params_file_returned [OF assms(3)] have r: "r = 0" by blast
  have a: "convert_json_file jf jo w1 = Returned (- 1) w2" for jo
    unfolding convert_json_file_missing [OF assms(5)] assms(6) by (simp add: print_def)
  have f: "files w2 = files w1" unfolding assms(6) by simp
  have m: "main L X argv0 [arg] w = Returned 1 w2"
    unfolding main_one_argument [OF assms(1,2)] assms(3) r
    using a [of "json_out_fname path (take pos (basename L arg'))"] assms(4) by simp
  from a f m show ?thesis by (simp add: exit_status_def)
qed

lemma packer_runP:
  "convert_params_file xnor32 ''m-0.params'' ''./binarized_m-0.params'' worldP
     = Returned 0 worldP_packed"
  by (simp add: convert_params_file_def Load_def Save_def worldP_def worldP_packed_def
      checkpoint0_def find_if.simps convert_loop.simps containsFilterString_def
      containsSubString_def filter_strings_def print_def weights0_packed Let_def)

theorem missing_graph_file_witness:
  "dirname libgen_cwd ''m-0.params'' = (''.'', ''m-0.params'') \<and>
   str_rfind (basename libgen_cwd ''m-0.params'') CHR ''-'' = Some 1 \<and>
   convert_params_file xnor32 ''m-0.params'' ''./binarized_m-0.params'' worldP
     = Returned 0 worldP_packed \<and>
   files worldP_packed ''./m-symbol.json'' = None \<and>
   convert_json_file ''./m-symbol.json'' ''./binarized_m-symbol.json'' worldP_packed
     = Returned (- 1) worldP_end \<and>
   files worldP_end = files worldP_packed \<and>
   main libgen_cwd xnor32 ''model-converter'' [''m-0.params''] worldP = Returned 1 worldP_end \<and>
   exit_status 1 \<noteq> 0"
proof -
  have d: "dirname libgen_cwd ''m-0.params'' = (''.'', ''m-0.params'')"
    by (simp add: libgen_cwd_def)
  have b: "str_rfind (basename libgen_cwd ''m-0.params'') CHR ''-'' = Some 1"
    by (simp add: libgen_cwd_def)
  have p: "convert_params_file xnor32 ''m-0.params''
      (output_name ''.'' (basename libgen_cwd ''m-0.params'')) worldP = Returned 0 worldP_packed"
    using packer_runP by (simp add: output_name_def libgen_cwd_def)
  have j: "''./m-symbol.json'' = json_file_name ''.'' (take 1 (basename libgen_cwd ''m-0.params''))"
    by (simp add: json_file_name_def libgen_cwd_def)
  have n: "files worldP_packed ''./m-symbol.json'' = None"
    by (simp add: worldP_packed_def worldP_def)
  have e: "worldP_end = worldP_packed\<lparr>stdout := stdout worldP_packed @
      [''loading '' @ ''./m-symbol.json'' @ ''...'',
       ''cant find json file at '' @ ''./m-symbol.json'']\<rparr>"
    by (simp add: worldP_end_def)
  from missing_graph_file [OF d b p j n e, of "''model-converter''"] d b packer_runP n
  show ?thesis by (simp add: json_out_fname_def libgen_cwd_def)
qed

end
